theory Spec2Isabelle
  imports Main "HOL-Library.Word"
begin

text \<open>
  The GitHub Environment Manager, package \<^verbatim>\<open>main\<close>: the secret sealing routine
  \<^verbatim>\<open>encryptSecret\<close>, the environment name check \<^verbatim>\<open>isValidEnvironmentName\<close> and the page
  slicing of the repository list, as HOL functions, and what holds of them.
\<close>

section \<open>Byte strings\<close>

text \<open>
  A Go \<^verbatim>\<open>string\<close> and a Go \<^verbatim>\<open>[]byte\<close> are sequences of 8-bit bytes. HOL's
  \<^typ>\<open>char\<close> is exactly one byte, so both are modelled as \<^typ>\<open>string\<close>; the conversion
  \<^verbatim>\<open>[]byte(secretValue)\<close> is the identity.
\<close>

type_synonym bytes = string

text \<open>
  \<^verbatim>\<open>var a [n]byte; copy(a[:], src)\<close>: the array starts zeroed and \<^verbatim>\<open>copy\<close> writes
  \<open>min n (len src)\<close> bytes. A longer source is cut, a shorter one is followed by zeros.
\<close>

definition copyArray :: "nat \<Rightarrow> bytes \<Rightarrow> bytes" where
  "copyArray n src = take n src @ replicate (n - length src) (CHR 0x00)"

section \<open>Standard base64 (\<^verbatim>\<open>base64.StdEncoding\<close>)\<close>

text \<open>
  Modelled from the spec: the Go standard library's \<^verbatim>\<open>encoding/base64\<close> is not among the
  sources. \<^verbatim>\<open>StdEncoding\<close> is the standard alphabet with \<^verbatim>\<open>=\<close> padding. The encoder
  packs three bytes into four sextets. The decoder reads sextets four at a time, skips
  carriage returns and line feeds, requires the padding, accepts nothing after it, and does
  not check the unused low bits of the last sextet (non-strict mode). The byte offset that
  \<^verbatim>\<open>CorruptInputError\<close> carries is left out.
\<close>

definition encodeStd :: string where
  "encodeStd = ''ABCDEFGHIJKLMNOPQRSTUVWXYZabcdefghijklmnopqrstuvwxyz0123456789+/''"

fun index_of :: "'a \<Rightarrow> 'a list \<Rightarrow> nat option" where
  "index_of x [] = None"
| "index_of x (y # ys) = (if x = y then Some 0 else map_option Suc (index_of x ys))"

definition decodeMap :: "char \<Rightarrow> nat option" where
  "decodeMap c = index_of c encodeStd"

definition sextets :: "nat \<Rightarrow> nat \<Rightarrow> string" where
  "sextets n v =
     take n [encodeStd ! (v div 262144 mod 64), encodeStd ! (v div 4096 mod 64),
             encodeStd ! (v div 64 mod 64), encodeStd ! (v mod 64)]"

fun EncodeToString :: "bytes \<Rightarrow> string" where
  "EncodeToString (a # b # c # rest) =
     sextets 4 (of_char a * 65536 + of_char b * 256 + of_char c) @ EncodeToString rest"
| "EncodeToString [a, b] = sextets 3 (of_char a * 65536 + of_char b * 256) @ ''=''"
| "EncodeToString [a] = sextets 2 (of_char a * 65536) @ ''==''"
| "EncodeToString [] = []"

datatype b64_error = CorruptInputError

fun skipNewlines :: "string \<Rightarrow> string" where
  "skipNewlines [] = []"
| "skipNewlines (c # cs) =
     (if c = CHR 0x0A \<or> c = CHR 0x0D then skipNewlines cs else c # cs)"

text \<open>
  The bytes of one quantum: \<open>dbuf\<close> holds the \<open>dlen\<close> sextets read (2, 3 or 4), the
  missing ones count as zero, and \<open>dlen - 1\<close> bytes come out.
\<close>

definition quantumBytes :: "nat list \<Rightarrow> bytes" where
  "quantumBytes dbuf =
     (let v = (dbuf @ [0, 0, 0, 0]) ! 0 * 262144 + (dbuf @ [0, 0, 0, 0]) ! 1 * 4096
              + (dbuf @ [0, 0, 0, 0]) ! 2 * 64 + (dbuf @ [0, 0, 0, 0]) ! 3
      in take (length dbuf - 1) [char_of (v div 65536), char_of (v div 256), char_of v])"

fun decodeLoop :: "nat list \<Rightarrow> bytes \<Rightarrow> string \<Rightarrow> b64_error + bytes" where
  "decodeLoop dbuf out [] = (if dbuf = [] then Inr out else Inl CorruptInputError)"
| "decodeLoop dbuf out (c # src) =
     (case decodeMap c of
        Some v \<Rightarrow>
          if length dbuf = 3 then decodeLoop [] (out @ quantumBytes (dbuf @ [v])) src
          else decodeLoop (dbuf @ [v]) out src
      | None \<Rightarrow>
          if c = CHR 0x0A \<or> c = CHR 0x0D then decodeLoop dbuf out src
          else if c \<noteq> CHR ''='' then Inl CorruptInputError
          else if length dbuf < 2 then Inl CorruptInputError
          else if length dbuf = 2 then
            (case skipNewlines src of
               [] \<Rightarrow> Inl CorruptInputError
             | c' # src' \<Rightarrow>
                 if c' \<noteq> CHR ''='' then Inl CorruptInputError
                 else if skipNewlines src' \<noteq> [] then Inl CorruptInputError
                 else Inr (out @ quantumBytes dbuf))
          else if skipNewlines src \<noteq> [] then Inl CorruptInputError
          else Inr (out @ quantumBytes dbuf))"

definition DecodeString :: "string \<Rightarrow> b64_error + bytes" where
  "DecodeString s = decodeLoop [] [] s"

section \<open>The cryptographic primitives\<close>

text \<open>
  \<^verbatim>\<open>encryptSecret\<close> calls three primitives of \<^verbatim>\<open>golang.org/x/crypto\<close>, none of them
  among the sources, so they are parameters of the model:
  \<^item> \<open>generateKey\<close> is \<^verbatim>\<open>box.GenerateKey(rand.Reader)\<close>: from the state \<open>'r\<close> of the
    random source, an error or the pair (public key, private key);
  \<^item> \<open>blake2bNew\<close> is \<^verbatim>\<open>blake2b.New(size, key)\<close>: an error, or a fresh hasher, given
    by the digest it computes of the bytes written to it;
  \<^item> \<open>boxSeal\<close> is \<^verbatim>\<open>box.Seal(nil, message, nonce, peersPublicKey, privateKey)\<close>, which has
    no error result;
  \<^item> \<open>boxOpen\<close> is \<^verbatim>\<open>box.Open(nil, box, nonce, peersPublicKey, privateKey)\<close>; only the
    recipient's unsealing uses it.
\<close>

record 'r crypto =
  generateKey :: "'r \<Rightarrow> string + (bytes \<times> bytes)"
  blake2bNew :: "nat \<Rightarrow> bytes \<Rightarrow> string + (bytes \<Rightarrow> bytes)"
  boxSeal :: "bytes \<Rightarrow> bytes \<Rightarrow> bytes \<Rightarrow> bytes \<Rightarrow> bytes"
  boxOpen :: "bytes \<Rightarrow> bytes \<Rightarrow> bytes \<Rightarrow> bytes \<Rightarrow> bytes option"

text \<open>
  A \<^verbatim>\<open>hash.Hash\<close>: \<^verbatim>\<open>Write\<close> adds bytes to the running hash and never fails, \<^verbatim>\<open>Sum(b)\<close>
  appends the digest of everything written so far to \<open>b\<close>.
\<close>

record hasher =
  digestOf :: "bytes \<Rightarrow> bytes"
  absorbed :: bytes

definition hashWrite :: "hasher \<Rightarrow> bytes \<Rightarrow> hasher" where
  "hashWrite h p = h\<lparr>absorbed := absorbed h @ p\<rparr>"

definition hashSum :: "hasher \<Rightarrow> bytes \<Rightarrow> bytes" where
  "hashSum h b = b @ digestOf h (absorbed h)"

section \<open>\<^verbatim>\<open>encryptSecret\<close>\<close>

text \<open>
  The function returns \<^verbatim>\<open>(string, error)\<close>: \<open>Ok\<close> is a result with a nil error, \<open>Err\<close> one
  of the two \<^verbatim>\<open>fmt.Errorf\<close> returns. \<open>Panic\<close> is the run-time panic of \<^verbatim>\<open>hash.Write\<close> on the
  nil hasher that \<^verbatim>\<open>blake2b.New\<close> returns beside an error: the source drops that error
  result (\<^verbatim>\<open>hash, _ := blake2b.New(24, nil)\<close>) and uses the hasher. The real constructor
  reports no error for size 24 and a nil key, so the branch is there for the sake of the
  parameter only.
\<close>

datatype enc_error =
  FailedToDecodePublicKey b64_error
| FailedToGenerateKeyPair string

datatype outcome = Ok string | Err enc_error | Panic

definition encryptSecret :: "'r crypto \<Rightarrow> 'r \<Rightarrow> string \<Rightarrow> string \<Rightarrow> outcome" where
  "encryptSecret lib rnd publicKey secretValue =
     (case DecodeString publicKey of
        Inl err \<Rightarrow> Err (FailedToDecodePublicKey err)
      | Inr decodedKey \<Rightarrow>
          let recipientKey = copyArray 32 decodedKey in
          (case generateKey lib rnd of
             Inl err \<Rightarrow> Err (FailedToGenerateKeyPair err)
           | Inr (ephemeralPub, ephemeralPriv) \<Rightarrow>
               (case blake2bNew lib 24 [] of
                  Inl _ \<Rightarrow> Panic
                | Inr d \<Rightarrow>
                    let hash0 = \<lparr>digestOf = d, absorbed = []\<rparr>;
                        hash1 = hashWrite hash0 ephemeralPub;
                        hash2 = hashWrite hash1 recipientKey;
                        nonce = copyArray 24 (hashSum hash2 []);
                        encrypted = boxSeal lib secretValue nonce recipientKey ephemeralPriv;
                        encryptedMessage = ephemeralPub @ encrypted
                    in Ok (EncodeToString encryptedMessage))))"

subsection \<open>What the primitives promise\<close>

text \<open>
  The Go signatures and documentation of the primitives: both keys of a generated pair
  are \<^verbatim>\<open>*[32]byte\<close>; \<^verbatim>\<open>blake2b.New(24, nil)\<close> succeeds and its digests have 24 bytes; a
  sealed box is \<^verbatim>\<open>box.Overhead = 16\<close> bytes longer than the message.
\<close>

definition lib_contract :: "'r crypto \<Rightarrow> bool" where
  "lib_contract lib \<longleftrightarrow>
     (\<forall>rnd pk sk. generateKey lib rnd = Inr (pk, sk) \<longrightarrow> length pk = 32 \<and> length sk = 32)
     \<and> (\<exists>d. blake2bNew lib 24 [] = Inr d \<and> (\<forall>m. length (d m) = 24))
     \<and> (\<forall>m n pk sk. length (boxSeal lib m n pk sk) = length m + 16)"

text \<open>The unkeyed 24-byte BLAKE2b digest, as one function of the whole input.\<close>

definition blake2b24 :: "'r crypto \<Rightarrow> bytes \<Rightarrow> bytes" where
  "blake2b24 lib m = (case blake2bNew lib 24 [] of Inl _ \<Rightarrow> [] | Inr d \<Rightarrow> d m)"

text \<open>
  \<open>(recipientPub, recipientPriv)\<close> is a recipient key pair when the holder of the private
  key opens, under the sender's public key and the same nonce, every box that a generated
  ephemeral private key sealed for the public key.
\<close>

definition key_pair :: "'r crypto \<Rightarrow> bytes \<Rightarrow> bytes \<Rightarrow> bool" where
  "key_pair lib recipientPub recipientPriv \<longleftrightarrow>
     (\<forall>rnd ephemeralPub ephemeralPriv m n.
        generateKey lib rnd = Inr (ephemeralPub, ephemeralPriv) \<longrightarrow>
        boxOpen lib (boxSeal lib m n recipientPub ephemeralPriv) n ephemeralPub recipientPriv
          = Some m)"

subsection \<open>The recipient's side\<close>

text \<open>
  Standard sealed-box unsealing, written from the specification's words and not part of
  the sources: decode the base64 text, read the leading 32 bytes as the ephemeral public key,
  recompute the nonce as the 24-byte BLAKE2b digest of the ephemeral public key followed by
  the recipient's public key, and open the remaining bytes.
\<close>

definition unseal :: "'r crypto \<Rightarrow> bytes \<Rightarrow> bytes \<Rightarrow> string \<Rightarrow> bytes option" where
  "unseal lib recipientPub recipientPriv sealed =
     (case DecodeString sealed of
        Inl _ \<Rightarrow> None
      | Inr msg \<Rightarrow>
          if length msg < 48 then None
          else
            let ephemeralPub = take 32 msg;
                nonce = blake2b24 lib (ephemeralPub @ recipientPub)
            in boxOpen lib (drop 32 msg) nonce ephemeralPub recipientPriv)"

subsection \<open>A stand-in library for running the model\<close>

text \<open>
  Concrete, insecure primitives with the shapes of the real ones, so that the model runs
  on concrete inputs. The random source is the 32 bytes the next read yields, or \<open>None\<close>
  when it fails. As X25519 does, the public key forgets the three low bits of the first
  byte of the private key, and sealing depends on the private key only through what both
  sides can compute.
\<close>

definition addBytes :: "bytes \<Rightarrow> bytes \<Rightarrow> bytes" where
  "addBytes xs ys = map (\<lambda>(x, y). char_of (of_char x + of_char y :: nat)) (zip xs ys)"

definition toyPublic :: "bytes \<Rightarrow> bytes" where
  "toyPublic sk = (case sk of [] \<Rightarrow> [] | c # cs \<Rightarrow> char_of (of_char c div 8 * 8 :: nat) # cs)"

definition toyGenerateKey :: "bytes option \<Rightarrow> string + (bytes \<times> bytes)" where
  "toyGenerateKey rnd =
     (case rnd of
        None \<Rightarrow> Inl ''unexpected EOF''
      | Some bs \<Rightarrow> Inr (toyPublic (copyArray 32 bs), copyArray 32 bs))"

definition toyBlake2bNew :: "nat \<Rightarrow> bytes \<Rightarrow> string + (bytes \<Rightarrow> bytes)" where
  "toyBlake2bNew hashSize key =
     (if hashSize < 1 \<or> 64 < hashSize then Inl ''blake2b: invalid hash size''
      else if 64 < length key then Inl ''blake2b: invalid key size''
      else Inr (\<lambda>m. copyArray hashSize (addBytes (key @ m) (rev (key @ m)))))"

definition toyTag :: "bytes \<Rightarrow> bytes \<Rightarrow> bytes \<Rightarrow> bytes" where
  "toyTag n pk sk = copyArray 16 (addBytes (addBytes (toyPublic sk) pk) n)"

definition toySeal :: "bytes \<Rightarrow> bytes \<Rightarrow> bytes \<Rightarrow> bytes \<Rightarrow> bytes" where
  "toySeal m n pk sk = toyTag n pk sk @ rev m"

definition toyOpen :: "bytes \<Rightarrow> bytes \<Rightarrow> bytes \<Rightarrow> bytes \<Rightarrow> bytes option" where
  "toyOpen box n pk sk =
     (if length box < 16 \<or> take 16 box \<noteq> toyTag n pk sk then None
      else Some (rev (drop 16 box)))"

definition toyLib :: "bytes option crypto" where
  "toyLib = \<lparr>generateKey = toyGenerateKey, blake2bNew = toyBlake2bNew,
             boxSeal = toySeal, boxOpen = toyOpen\<rparr>"

section \<open>\<^verbatim>\<open>isValidEnvironmentName\<close>\<close>

text \<open>
  \<^verbatim>\<open>len(name)\<close> and \<^verbatim>\<open>name[i]\<close> count and read bytes; \<^verbatim>\<open>for _, char := range name\<close> walks
  the string rune by rune, decoding UTF-8. An invalid or cut-off sequence yields the rune
  \<open>0xFFFD\<close> and advances one byte. \<open>decodeRune\<close> gives the rune and the number of bytes
  it took; \<open>decode2\<close>, \<open>decode3\<close> and \<open>decode4\<close> read the sequences that a lead byte
  \<open>x\<close> of two, three and four bytes starts.
\<close>

definition inRange :: "char \<Rightarrow> nat \<Rightarrow> nat \<Rightarrow> bool" where
  "inRange b lo hi \<longleftrightarrow> lo \<le> of_char b \<and> of_char b \<le> hi"

definition low6 :: "char \<Rightarrow> nat" where
  "low6 b = of_char b mod 64"

definition decode2 :: "nat \<Rightarrow> string \<Rightarrow> nat \<times> nat" where
  "decode2 x rest =
     (case rest of
        b1 # _ \<Rightarrow>
          if inRange b1 0x80 0xBF then (x mod 32 * 64 + low6 b1, 2) else (0xFFFD, 1)
      | _ \<Rightarrow> (0xFFFD, 1))"

definition decode3 :: "nat \<Rightarrow> string \<Rightarrow> nat \<times> nat" where
  "decode3 x rest =
     (case rest of
        b1 # b2 # _ \<Rightarrow>
          if inRange b1 (if x = 0xE0 then 0xA0 else 0x80) (if x = 0xED then 0x9F else 0xBF)
             \<and> inRange b2 0x80 0xBF
          then (x mod 16 * 4096 + low6 b1 * 64 + low6 b2, 3)
          else (0xFFFD, 1)
      | _ \<Rightarrow> (0xFFFD, 1))"

definition decode4 :: "nat \<Rightarrow> string \<Rightarrow> nat \<times> nat" where
  "decode4 x rest =
     (case rest of
        b1 # b2 # b3 # _ \<Rightarrow>
          if inRange b1 (if x = 0xF0 then 0x90 else 0x80) (if x = 0xF4 then 0x8F else 0xBF)
             \<and> inRange b2 0x80 0xBF \<and> inRange b3 0x80 0xBF
          then (x mod 8 * 262144 + low6 b1 * 4096 + low6 b2 * 64 + low6 b3, 4)
          else (0xFFFD, 1)
      | _ \<Rightarrow> (0xFFFD, 1))"

fun decodeRune :: "string \<Rightarrow> nat \<times> nat" where
  "decodeRune [] = (0xFFFD, 0)"
| "decodeRune (b0 # rest) =
     (let x = of_char b0 in
      if x < 0x80 then (x, 1)
      else if 0xC2 \<le> x \<and> x \<le> 0xDF then decode2 x rest
      else if 0xE0 \<le> x \<and> x \<le> 0xEF then decode3 x rest
      else if 0xF0 \<le> x \<and> x \<le> 0xF4 then decode4 x rest
      else (0xFFFD, 1))"

fun rangeRunes :: "string \<Rightarrow> nat list" where
  "rangeRunes [] = []"
| "rangeRunes (b0 # rest) =
     fst (decodeRune (b0 # rest)) # rangeRunes (drop (snd (decodeRune (b0 # rest)) - 1) rest)"

text \<open>The loop body: the first rune outside \<^verbatim>\<open>a-z\<close>, \<^verbatim>\<open>0-9\<close> and \<^verbatim>\<open>-\<close> returns false.\<close>

fun onlyValidRunes :: "nat list \<Rightarrow> bool" where
  "onlyValidRunes [] = True"
| "onlyValidRunes (ch # rest) =
     (if \<not> ((97 \<le> ch \<and> ch \<le> 122) \<or> (48 \<le> ch \<and> ch \<le> 57) \<or> ch = 45) then False
      else onlyValidRunes rest)"

definition isValidEnvironmentName :: "string \<Rightarrow> bool" where
  "isValidEnvironmentName name =
     (if length name < 1 \<or> length name > 255 then False
      else if \<not> onlyValidRunes (rangeRunes name) then False
      else if name ! 0 = CHR ''-'' \<or> name ! (length name - 1) = CHR ''-'' then False
      else True)"

text \<open>A valid name in the specification's words, character by character.\<close>

definition nameChar :: "char \<Rightarrow> bool" where
  "nameChar c \<longleftrightarrow>
     c \<in> set ''abcdefghijklmnopqrstuvwxyz'' \<or> c \<in> set ''0123456789'' \<or> c = CHR ''-''"

section \<open>Pagination in \<^verbatim>\<open>getRepositories\<close> and \<^verbatim>\<open>fallbackRepositorySearch\<close>\<close>

text \<open>
  Both functions slice their list with the same statements. Go's \<^verbatim>\<open>int\<close> has 64 bits on
  every platform the project builds for (amd64 and arm64); its arithmetic wraps around
  and its comparisons are signed. \<open>None\<close> is the run-time panic of an index out of range.
\<close>

type_synonym go_int = "64 word"

function pageLoop :: "'a list \<Rightarrow> go_int \<Rightarrow> go_int \<Rightarrow> 'a list \<Rightarrow> 'a list option" where
  "pageLoop allRepos i end repos =
     (if sint i < sint end then
        (if 0 \<le> sint i \<and> sint i < int (length allRepos)
         then pageLoop allRepos (i + 1) end (repos @ [allRepos ! nat (sint i)])
         else None)
      else Some repos)"
  by pat_completeness auto

lemma sint_Suc_below: "sint (i :: go_int) < sint (e :: go_int) \<Longrightarrow> sint (i + 1) = sint i + 1"
proof -
  assume lt: "sint i < sint e"
  have "sint e < 2 ^ 63" and "- (2 ^ 63) \<le> sint i"
    using sint_lt [of e] sint_ge [of i] by simp_all
  with lt have "- (2 ^ 63) \<le> sint i + 1" and "sint i + 1 < 2 ^ 63"
    by linarith+
  then have "signed_take_bit 63 (sint i + 1) = sint i + 1"
    by (simp add: signed_take_bit_int_eq_self)
  then show ?thesis
    by (simp add: sint_word_ariths)
qed

termination pageLoop
  by (relation "measure (\<lambda>(allRepos, i, e, repos). nat (sint e - sint i))")
    (simp_all add: sint_Suc_below)

definition paginate :: "'a list \<Rightarrow> go_int \<Rightarrow> go_int \<Rightarrow> 'a list option" where
  "paginate allRepos page perPage =
     (let start = (page - 1) * perPage;
          end = start + perPage;
          start = (if int (length allRepos) \<le> sint start then of_nat (length allRepos) else start);
          end = (if int (length allRepos) < sint end then of_nat (length allRepos) else end)
      in pageLoop allRepos start end [])"

section \<open>Base64: decoding inverts encoding\<close>

lemma length_encodeStd: "length encodeStd = 64"
  by (simp add: encodeStd_def)

lemma distinct_encodeStd: "distinct encodeStd"
  unfolding encodeStd_def by simp

lemma index_of_nth: "distinct xs \<Longrightarrow> k < length xs \<Longrightarrow> index_of (xs ! k) xs = Some k"
proof (induction xs arbitrary: k)
  case Nil
  then show ?case by simp
next
  case (Cons x xs)
  show ?case
  proof (cases k)
    case 0
    then show ?thesis by simp
  next
    case (Suc j)
    with Cons.prems have "xs ! j \<noteq> x" "j < length xs" "distinct xs"
      by auto
    with Cons.IH [of j] Suc show ?thesis by simp
  qed
qed

lemma decodeMap_encodeStd: "k < 64 \<Longrightarrow> decodeMap (encodeStd ! k) = Some k"
  unfolding decodeMap_def
  by (rule index_of_nth) (simp_all add: distinct_encodeStd length_encodeStd)

lemma decodeMap_pad: "decodeMap (CHR ''='') = None"
  by (simp add: decodeMap_def encodeStd_def)

lemma sextets_4: "sextets 4 v = [encodeStd ! (v div 262144 mod 64), encodeStd ! (v div 4096 mod 64),
    encodeStd ! (v div 64 mod 64), encodeStd ! (v mod 64)]"
  by (simp add: sextets_def)

lemma sextets_3: "sextets 3 v = [encodeStd ! (v div 262144 mod 64), encodeStd ! (v div 4096 mod 64),
    encodeStd ! (v div 64 mod 64)]"
  by (simp add: sextets_def)

lemma sextets_2: "sextets 2 v = [encodeStd ! (v div 262144 mod 64), encodeStd ! (v div 4096 mod 64)]"
  by (simp add: sextets_def)

lemma recombine:
  assumes "(v::nat) < 16777216"
  shows "v div 262144 mod 64 * 262144 + v div 4096 mod 64 * 4096 + v div 64 mod 64 * 64 + v mod 64 = v"
proof -
  define q1 where "q1 = v div 64"
  define r0 where "r0 = v mod 64"
  define q2 where "q2 = q1 div 64"
  define r1 where "r1 = q1 mod 64"
  define q3 where "q3 = q2 div 64"
  define r2 where "r2 = q2 mod 64"
  have e0: "v = q1 * 64 + r0" by (simp add: q1_def r0_def)
  have e1: "q1 = q2 * 64 + r1" by (simp add: q2_def r1_def)
  have e2: "q2 = q3 * 64 + r2" by (simp add: q3_def r2_def)
  have d2: "v div 4096 = q2"
    unfolding q2_def q1_def by (simp add: div_mult2_eq [symmetric])
  have d3: "v div 262144 = q3"
    unfolding q3_def q2_def q1_def by (simp add: div_mult2_eq [symmetric])
  have "q3 < 64" using assms e0 e1 e2 by linarith
  then have m3: "q3 mod 64 = q3" by simp
  have "q3 * 262144 + r2 * 4096 + r1 * 64 + r0 = v"
    using e0 e1 e2 by linarith
  then show ?thesis
    unfolding d2 d3 m3 by (simp only: r2_def r1_def r0_def q1_def)
qed

lemma div_hi: "(lo::nat) < n \<Longrightarrow> (lo + a * n) div n = a"
  by simp

lemma mod_lo: "(lo::nat) < n \<Longrightarrow> (lo + a * n) mod n = lo"
  by simp

lemma split_bytes:
  assumes "(a::nat) < 256" "(b::nat) < 256" "(c::nat) < 256"
  shows "(a * 65536 + b * 256 + c) div 65536 = a"
    and "(a * 65536 + b * 256 + c) div 256 mod 256 = b"
    and "(a * 65536 + b * 256 + c) mod 256 = c"
proof -
  have lo: "b * 256 + c < 65536" using assms by linarith
  have f1: "a * 65536 + b * 256 + c = (b * 256 + c) + a * 65536" by linarith
  have f2: "a * 65536 + b * 256 + c = c + (a * 256 + b) * 256" by (simp add: add_mult_distrib)
  have f3: "a * 256 + b = b + a * 256" by linarith
  show "(a * 65536 + b * 256 + c) div 65536 = a"
    unfolding f1 using lo by (rule div_hi)
  have "(a * 65536 + b * 256 + c) div 256 = a * 256 + b"
    unfolding f2 using assms(3) by (rule div_hi)
  moreover have "(a * 256 + b) mod 256 = b"
    unfolding f3 using assms(2) by (rule mod_lo)
  ultimately show "(a * 65536 + b * 256 + c) div 256 mod 256 = b"
    by (simp only:)
  show "(a * 65536 + b * 256 + c) mod 256 = c"
    unfolding f2 using assms(3) by (rule mod_lo)
qed

lemma pack_bound:
  assumes "(a::nat) < 256" "(b::nat) < 256" "(c::nat) < 256"
  shows "a * 65536 + b * 256 + c < 16777216"
  using assms by linarith

text \<open>Three bytes packed into 24 bits come back from the three byte positions.\<close>

lemma unpack_chars:
  fixes a b c :: char
  assumes v: "v = of_char a * 65536 + of_char b * 256 + (of_char c :: nat)"
  shows "char_of (v div 65536) = a" and "char_of (v div 256) = b" and "char_of v = c"
proof -
  have A: "(of_char a :: nat) < 256" and B: "(of_char b :: nat) < 256"
    and C: "(of_char c :: nat) < 256" by simp_all
  show "char_of (v div 65536) = a"
    unfolding v split_bytes(1) [OF A B C] by simp
  have "char_of (v div 256) = char_of (v div 256 mod 256)"
    by (simp only: char_of_mod_256)
  then show "char_of (v div 256) = b"
    unfolding v split_bytes(2) [OF A B C] by simp
  have "char_of v = char_of (v mod 256)"
    by (simp only: char_of_mod_256)
  then show "char_of v = c"
    unfolding v split_bytes(3) [OF A B C] by simp
qed

lemma quantumBytes_4:
  assumes "v < 16777216"
  shows "quantumBytes [v div 262144 mod 64, v div 4096 mod 64, v div 64 mod 64, v mod 64]
    = [char_of (v div 65536), char_of (v div 256), char_of v]"
proof -
  have "quantumBytes [v div 262144 mod 64, v div 4096 mod 64, v div 64 mod 64, v mod 64]
    = (let w = v div 262144 mod 64 * 262144 + v div 4096 mod 64 * 4096 + v div 64 mod 64 * 64 + v mod 64
       in [char_of (w div 65536), char_of (w div 256), char_of w])"
    by (simp add: quantumBytes_def Let_def)
  then show ?thesis
    unfolding recombine [OF assms] by (simp only: Let_def)
qed

lemma quantumBytes_3:
  assumes "v < 16777216" "v mod 64 = 0"
  shows "quantumBytes [v div 262144 mod 64, v div 4096 mod 64, v div 64 mod 64]
    = [char_of (v div 65536), char_of (v div 256)]"
proof -
  have "quantumBytes [v div 262144 mod 64, v div 4096 mod 64, v div 64 mod 64]
    = (let w = v div 262144 mod 64 * 262144 + v div 4096 mod 64 * 4096 + v div 64 mod 64 * 64 + 0
       in [char_of (w div 65536), char_of (w div 256)])"
    by (simp add: quantumBytes_def Let_def)
  then show ?thesis
    using recombine [OF assms(1)] unfolding assms(2) by (simp only: Let_def)
qed

lemma quantumBytes_2:
  assumes "v < 16777216" "v mod 64 = 0" "v div 64 mod 64 = 0"
  shows "quantumBytes [v div 262144 mod 64, v div 4096 mod 64] = [char_of (v div 65536)]"
proof -
  have "quantumBytes [v div 262144 mod 64, v div 4096 mod 64]
    = (let w = v div 262144 mod 64 * 262144 + v div 4096 mod 64 * 4096 + 0 * 64 + 0
       in [char_of (w div 65536)])"
    by (simp add: quantumBytes_def Let_def)
  then show ?thesis
    using recombine [OF assms(1)] unfolding assms(2) assms(3) by (simp only: Let_def)
qed


lemma decodeLoop_step4:
  assumes "s0 < 64" "s1 < 64" "s2 < 64" "s3 < 64"
  shows "decodeLoop [] out (encodeStd ! s0 # encodeStd ! s1 # encodeStd ! s2 # encodeStd ! s3 # rest)
    = decodeLoop [] (out @ quantumBytes [s0, s1, s2, s3]) rest"
  using assms by (simp add: decodeMap_encodeStd)

lemma decodeLoop_step3:
  assumes "s0 < 64" "s1 < 64" "s2 < 64"
  shows "decodeLoop [] out [encodeStd ! s0, encodeStd ! s1, encodeStd ! s2, CHR ''='']
    = Inr (out @ quantumBytes [s0, s1, s2])"
  using assms by (simp add: decodeMap_encodeStd decodeMap_pad)

lemma decodeLoop_step2:
  assumes "s0 < 64" "s1 < 64"
  shows "decodeLoop [] out [encodeStd ! s0, encodeStd ! s1, CHR ''='', CHR ''='']
    = Inr (out @ quantumBytes [s0, s1])"
  using assms by (simp add: decodeMap_encodeStd decodeMap_pad)

lemma decodeLoop_EncodeToString: "decodeLoop [] out (EncodeToString bs) = Inr (out @ bs)"
proof (induction bs arbitrary: out rule: EncodeToString.induct)
  case (1 a b c rest)
  define v where "v = of_char a * 65536 + of_char b * 256 + (of_char c :: nat)"
  have vb: "v < 16777216"
    unfolding v_def by (rule pack_bound) simp_all
  have enc: "EncodeToString (a # b # c # rest)
    = encodeStd ! (v div 262144 mod 64) # encodeStd ! (v div 4096 mod 64)
      # encodeStd ! (v div 64 mod 64) # encodeStd ! (v mod 64) # EncodeToString rest"
    by (simp add: sextets_4 flip: v_def)
  have "decodeLoop [] out (EncodeToString (a # b # c # rest))
    = decodeLoop [] (out @ quantumBytes [v div 262144 mod 64, v div 4096 mod 64, v div 64 mod 64, v mod 64])
        (EncodeToString rest)"
    unfolding enc by (rule decodeLoop_step4) simp_all
  also have "\<dots> = decodeLoop [] (out @ [a, b, c]) (EncodeToString rest)"
    unfolding quantumBytes_4 [OF vb] unpack_chars [OF v_def] ..
  also have "\<dots> = Inr ((out @ [a, b, c]) @ rest)"
    by (rule "1.IH")
  finally show ?case by simp
next
  case (2 a b)
  define v where "v = of_char a * 65536 + of_char b * 256 + (of_char (CHR 0x00) :: nat)"
  have v': "v = of_char a * 65536 + of_char b * 256"
    by (simp add: v_def)
  have vb: "v < 16777216"
    unfolding v_def by (rule pack_bound) simp_all
  have m: "v mod 64 = 0"
    unfolding v' by (simp add: mod_eq_0_iff_dvd)
  have enc: "EncodeToString [a, b]
    = [encodeStd ! (v div 262144 mod 64), encodeStd ! (v div 4096 mod 64),
       encodeStd ! (v div 64 mod 64), CHR ''='']"
    by (simp add: sextets_3 flip: v')
  have "decodeLoop [] out (EncodeToString [a, b])
    = Inr (out @ quantumBytes [v div 262144 mod 64, v div 4096 mod 64, v div 64 mod 64])"
    unfolding enc by (rule decodeLoop_step3) simp_all
  also have "\<dots> = Inr (out @ [char_of (v div 65536), char_of (v div 256)])"
    unfolding quantumBytes_3 [OF vb m] ..
  also have "\<dots> = Inr (out @ [a, b])"
    unfolding unpack_chars(1,2) [OF v_def] ..
  finally show ?case .
next
  case (3 a)
  define v where "v = of_char a * 65536 + of_char (CHR 0x00) * 256 + (of_char (CHR 0x00) :: nat)"
  have v': "v = of_char a * 65536"
    by (simp add: v_def)
  have vb: "v < 16777216"
    unfolding v_def by (rule pack_bound) simp_all
  have m: "v mod 64 = 0"
    unfolding v' by (simp add: mod_eq_0_iff_dvd)
  have "v div 64 = of_char a * 1024"
    unfolding v' by simp
  then have m2: "v div 64 mod 64 = 0"
    by (simp add: mod_eq_0_iff_dvd)
  have enc: "EncodeToString [a]
    = [encodeStd ! (v div 262144 mod 64), encodeStd ! (v div 4096 mod 64), CHR ''='', CHR ''='']"
    by (simp add: sextets_2 flip: v')
  have "decodeLoop [] out (EncodeToString [a])
    = Inr (out @ quantumBytes [v div 262144 mod 64, v div 4096 mod 64])"
    unfolding enc by (rule decodeLoop_step2) simp_all
  also have "\<dots> = Inr (out @ [char_of (v div 65536)])"
    unfolding quantumBytes_2 [OF vb m m2] ..
  also have "\<dots> = Inr (out @ [a])"
    unfolding unpack_chars(1) [OF v_def] ..
  finally show ?case .
next
  case 4
  show ?case by simp
qed

lemma DecodeString_EncodeToString: "DecodeString (EncodeToString bs) = Inr bs"
  by (simp add: DecodeString_def decodeLoop_EncodeToString)

lemma EncodeToString_inject: "EncodeToString xs = EncodeToString ys \<Longrightarrow> xs = ys"
proof -
  assume "EncodeToString xs = EncodeToString ys"
  then have "DecodeString (EncodeToString xs) = DecodeString (EncodeToString ys)"
    by simp
  then show "xs = ys"
    by (simp add: DecodeString_EncodeToString)
qed

section \<open>\<^verbatim>\<open>encryptSecret\<close>: the paths through the function\<close>

lemma length_copyArray: "length (copyArray n src) = n"
  by (simp add: copyArray_def)

lemma copyArray_exact: "length src = n \<Longrightarrow> copyArray n src = src"
  by (simp add: copyArray_def)

lemma encryptSecret_Ok:
  assumes "DecodeString publicKey = Inr decodedKey"
    and "generateKey lib rnd = Inr (ephemeralPub, ephemeralPriv)"
    and "blake2bNew lib 24 [] = Inr d"
  shows "encryptSecret lib rnd publicKey secretValue =
    Ok (EncodeToString (ephemeralPub @
      boxSeal lib secretValue (copyArray 24 (d (ephemeralPub @ copyArray 32 decodedKey)))
        (copyArray 32 decodedKey) ephemeralPriv))"
  using assms by (simp add: encryptSecret_def hashWrite_def hashSum_def Let_def)

lemma encryptSecret_decode_error:
  "DecodeString publicKey = Inl err \<Longrightarrow>
    encryptSecret lib rnd publicKey secretValue = Err (FailedToDecodePublicKey err)"
  by (simp add: encryptSecret_def Let_def)

lemma encryptSecret_generate_error:
  "DecodeString publicKey = Inr decodedKey \<Longrightarrow> generateKey lib rnd = Inl err \<Longrightarrow>
    encryptSecret lib rnd publicKey secretValue = Err (FailedToGenerateKeyPair err)"
  by (simp add: encryptSecret_def Let_def)

text \<open>The key is never compared with 32: any decoded key acts as its 32-byte copy.\<close>

lemma encryptSecret_key_as_copied:
  assumes "DecodeString publicKey = Inr decodedKey"
  shows "encryptSecret lib rnd publicKey secretValue
    = encryptSecret lib rnd (EncodeToString (copyArray 32 decodedKey)) secretValue"
proof -
  have "copyArray 32 (copyArray 32 decodedKey) = copyArray 32 decodedKey"
    by (rule copyArray_exact) (rule length_copyArray)
  then show ?thesis
    using assms by (simp add: encryptSecret_def DecodeString_EncodeToString)
qed

lemma lib_contract_hash:
  assumes "lib_contract lib"
  shows "\<exists>d. blake2bNew lib 24 [] = Inr d \<and> (\<forall>m. length (d m) = 24) \<and> blake2b24 lib = d"
proof -
  from assms obtain d where d: "blake2bNew lib 24 [] = Inr d" "\<forall>m. length (d m) = 24"
    unfolding lib_contract_def by blast
  then have "blake2b24 lib = d"
    by (simp add: blake2b24_def fun_eq_iff)
  with d show ?thesis by blast
qed

lemma lib_contract_keys:
  "lib_contract lib \<Longrightarrow> generateKey lib rnd = Inr (pk, sk) \<Longrightarrow> length pk = 32"
  unfolding lib_contract_def by blast

lemma lib_contract_overhead:
  "lib_contract lib \<Longrightarrow> length (boxSeal lib m n pk sk) = length m + 16"
  unfolding lib_contract_def by blast

text \<open>
  The hasher of \<^verbatim>\<open>blake2b.New(24, nil)\<close> is never nil under the library's contract, so
  the call never panics.
\<close>

lemma encryptSecret_no_panic:
  assumes "lib_contract lib"
  shows "encryptSecret lib rnd publicKey secretValue \<noteq> Panic"
proof -
  from assms obtain d where "blake2bNew lib 24 [] = Inr d"
    unfolding lib_contract_def by blast
  then show ?thesis
    by (simp add: encryptSecret_def Let_def split: sum.split prod.split)
qed

text \<open>
  With a 32-byte key and a generated key pair the result is the encoding of the ephemeral
  public key followed by the box, sealed under the digest of the two public keys.
\<close>

lemma encryptSecret_sealed:
  assumes "lib_contract lib"
    and "DecodeString publicKey = Inr recipientPub"
    and "length recipientPub = 32"
    and "generateKey lib rnd = Inr (ephemeralPub, ephemeralPriv)"
  shows "encryptSecret lib rnd publicKey secretValue =
    Ok (EncodeToString (ephemeralPub @
      boxSeal lib secretValue (blake2b24 lib (ephemeralPub @ recipientPub))
        recipientPub ephemeralPriv))"
proof -
  from lib_contract_hash [OF assms(1)]
  obtain d where d: "blake2bNew lib 24 [] = Inr d" "\<And>m. length (d m) = 24" "blake2b24 lib = d"
    by blast
  have "copyArray 32 recipientPub = recipientPub"
    using assms(3) by (rule copyArray_exact)
  moreover have "copyArray 24 (d (ephemeralPub @ recipientPub)) = d (ephemeralPub @ recipientPub)"
    using d(2) by (rule copyArray_exact)
  ultimately show ?thesis
    using encryptSecret_Ok [OF assms(2) assms(4) d(1), of secretValue] d(3) by simp
qed

lemma unseal_sealed:
  assumes "lib_contract lib"
    and "key_pair lib recipientPub recipientPriv"
    and "generateKey lib rnd = Inr (ephemeralPub, ephemeralPriv)"
  shows "unseal lib recipientPub recipientPriv
      (EncodeToString (ephemeralPub @
        boxSeal lib m (blake2b24 lib (ephemeralPub @ recipientPub)) recipientPub ephemeralPriv))
    = Some m"
proof -
  let ?n = "blake2b24 lib (ephemeralPub @ recipientPub)"
  let ?box = "boxSeal lib m ?n recipientPub ephemeralPriv"
  have len: "length ephemeralPub = 32"
    using assms(1,3) by (rule lib_contract_keys)
  have "length ?box = length m + 16"
    using assms(1) by (rule lib_contract_overhead)
  then have "\<not> length (ephemeralPub @ ?box) < 48"
    using len by simp
  moreover have "take 32 (ephemeralPub @ ?box) = ephemeralPub"
    and "drop 32 (ephemeralPub @ ?box) = ?box"
    using len by simp_all
  moreover have "boxOpen lib ?box ?n ephemeralPub recipientPriv = Some m"
    using assms(2,3) unfolding key_pair_def by blast
  ultimately show ?thesis
    by (simp add: unseal_def DecodeString_EncodeToString)
qed

lemma encryptSecret_Ok_generated:
  assumes "encryptSecret lib rnd publicKey secretValue = Ok out"
  obtains pk sk where "generateKey lib rnd = Inr (pk, sk)"
  using assms by (auto simp: encryptSecret_def Let_def split: sum.splits)

subsection \<open>The stand-in library keeps the promises\<close>

lemma addBytes_commute: "addBytes xs ys = addBytes ys xs"
proof (induction xs arbitrary: ys)
  case Nil
  then show ?case by (simp add: addBytes_def)
next
  case (Cons x xs)
  then show ?case by (cases ys) (simp_all add: addBytes_def add.commute)
qed

lemma length_toyPublic: "length (toyPublic sk) = length sk"
  by (simp add: toyPublic_def split: list.splits)

lemma length_toyTag: "length (toyTag n pk sk) = 16"
  by (simp add: toyTag_def length_copyArray)

lemma toy_contract: "lib_contract toyLib"
  by (auto simp: lib_contract_def toyLib_def toyGenerateKey_def toyBlake2bNew_def toySeal_def
      length_toyPublic length_copyArray length_toyTag split: option.splits)

lemma toy_key_pair: "key_pair toyLib (toyPublic sk) sk"
proof -
  have "toyOpen (toySeal m n (toyPublic sk) esk) n (toyPublic esk) sk = Some m" for m n esk
  proof -
    have "toyTag n (toyPublic sk) esk = toyTag n (toyPublic esk) sk"
      by (simp add: toyTag_def addBytes_commute [of "toyPublic esk"])
    then show ?thesis
      by (simp add: toyOpen_def toySeal_def length_toyTag)
  qed
  then show ?thesis
    by (auto simp: key_pair_def toyLib_def toyGenerateKey_def split: option.splits)
qed

subsection \<open>Runs of the model\<close>

text \<open>
  The recipient's private key is \<^verbatim>\<open>recipient-private-key-32-bytes!!\<close>, its public key
  \<^verbatim>\<open>pecipient-private-key-32-bytes!!\<close> in base64 is the \<open>publicKey\<close> argument, and the
  random source yields \<^verbatim>\<open>ephemeral-private-key-32-bytes!!\<close>.
\<close>

lemma toy_decode:
  "DecodeString ''cGVjaXBpZW50LXByaXZhdGUta2V5LTMyLWJ5dGVzISE=''
    = Inr ''pecipient-private-key-32-bytes!!''"
  by (simp add: DecodeString_def decodeMap_def encodeStd_def quantumBytes_def char_of_eq_iff)

lemmas toy_defs = toyLib_def toyGenerateKey_def toyPublic_def toyBlake2bNew_def toySeal_def
  toyOpen_def toyTag_def addBytes_def copyArray_def

lemma toy_eval: "encryptSecret toyLib (Some ''ephemeral-private-key-32-bytes!!'')
    ''cGVjaXBpZW50LXByaXZhdGUta2V5LTMyLWJ5dGVzISE='' ''super-secret-value''
  = Ok ''YHBoZW1lcmFsLXByaXZhdGUta2V5LTMyLWJ5dGVzISFRZqaYvqyrXX66fc+gzVDBZXVsYXYtdGVyY2VzLXJlcHVz''"
  by (simp add: encryptSecret_def toy_decode toy_defs hashWrite_def hashSum_def sextets_def encodeStd_def)

lemma toy_generate:
  "generateKey toyLib (Some ''ephemeral-private-key-32-bytes!!'')
    = Inr (''`phemeral-private-key-32-bytes!!'', ''ephemeral-private-key-32-bytes!!'')"
  by (simp add: toy_defs char_of_eq_iff)

lemma toy_public:
  "toyPublic ''recipient-private-key-32-bytes!!'' = ''pecipient-private-key-32-bytes!!''"
  by (simp add: toyPublic_def char_of_eq_iff)

lemma toy_recipient:
  "key_pair toyLib ''pecipient-private-key-32-bytes!!'' ''recipient-private-key-32-bytes!!''"
  using toy_key_pair [of "''recipient-private-key-32-bytes!!''"] unfolding toy_public .

lemma toy_generate_other:
  "generateKey toyLib (Some ''another-ephemeral-key-32-bytes!!'')
    = Inr (''`nother-ephemeral-key-32-bytes!!'', ''another-ephemeral-key-32-bytes!!'')"
  by (simp add: toy_defs char_of_eq_iff)

lemma toy_generate_twin:
  "generateKey toyLib (Some ''dphemeral-private-key-32-bytes!!'')
    = Inr (''`phemeral-private-key-32-bytes!!'', ''dphemeral-private-key-32-bytes!!'')"
  by (simp add: toy_defs char_of_eq_iff)

lemma toy_eval_twin: "encryptSecret toyLib (Some ''dphemeral-private-key-32-bytes!!'')
    ''cGVjaXBpZW50LXByaXZhdGUta2V5LTMyLWJ5dGVzISE='' ''super-secret-value''
  = Ok ''YHBoZW1lcmFsLXByaXZhdGUta2V5LTMyLWJ5dGVzISFRZqaYvqyrXX66fc+gzVDBZXVsYXYtdGVyY2VzLXJlcHVz''"
  by (simp add: encryptSecret_def toy_decode toy_defs hashWrite_def hashSum_def sextets_def encodeStd_def)

lemma toy_decode_corrupt: "DecodeString ''not base64!'' = Inl CorruptInputError"
  by (simp add: DecodeString_def decodeMap_def encodeStd_def)

lemma decode_AAAA: "DecodeString ''AAAA'' = Inr [CHR 0x00, CHR 0x00, CHR 0x00]"
  by (simp add: DecodeString_def decodeMap_def encodeStd_def quantumBytes_def char_of_eq_iff)

lemma pad_AAAA:
  "copyArray 32 [CHR 0x00, CHR 0x00, CHR 0x00] =
     [CHR 0x00, CHR 0x00, CHR 0x00, CHR 0x00, CHR 0x00, CHR 0x00, CHR 0x00, CHR 0x00, CHR 0x00,
      CHR 0x00, CHR 0x00, CHR 0x00, CHR 0x00, CHR 0x00, CHR 0x00, CHR 0x00, CHR 0x00, CHR 0x00,
      CHR 0x00, CHR 0x00, CHR 0x00, CHR 0x00, CHR 0x00, CHR 0x00, CHR 0x00, CHR 0x00, CHR 0x00,
      CHR 0x00, CHR 0x00, CHR 0x00, CHR 0x00, CHR 0x00]"
  by (simp add: copyArray_def eval_nat_numeral)

lemma encode_zero_key:
  "EncodeToString
     [CHR 0x00, CHR 0x00, CHR 0x00, CHR 0x00, CHR 0x00, CHR 0x00, CHR 0x00, CHR 0x00, CHR 0x00,
      CHR 0x00, CHR 0x00, CHR 0x00, CHR 0x00, CHR 0x00, CHR 0x00, CHR 0x00, CHR 0x00, CHR 0x00,
      CHR 0x00, CHR 0x00, CHR 0x00, CHR 0x00, CHR 0x00, CHR 0x00, CHR 0x00, CHR 0x00, CHR 0x00,
      CHR 0x00, CHR 0x00, CHR 0x00, CHR 0x00, CHR 0x00]
   = ''AAAAAAAAAAAAAAAAAAAAAAAAAAAAAAAAAAAAAAAAAAA=''"
  by (simp add: sextets_def encodeStd_def)

lemma decode_long_key:
  "DecodeString ''AAAAAAAAAAAAAAAAAAAAAAAAAAAAAAAAAAAAAAAAAAAB'' = Inr
     [CHR 0x00, CHR 0x00, CHR 0x00, CHR 0x00, CHR 0x00, CHR 0x00, CHR 0x00, CHR 0x00, CHR 0x00,
      CHR 0x00, CHR 0x00, CHR 0x00, CHR 0x00, CHR 0x00, CHR 0x00, CHR 0x00, CHR 0x00, CHR 0x00,
      CHR 0x00, CHR 0x00, CHR 0x00, CHR 0x00, CHR 0x00, CHR 0x00, CHR 0x00, CHR 0x00, CHR 0x00,
      CHR 0x00, CHR 0x00, CHR 0x00, CHR 0x00, CHR 0x00, CHR 0x01]"
  by (simp add: DecodeString_def decodeMap_def encodeStd_def quantumBytes_def char_of_eq_iff)

lemma cut_long_key:
  "copyArray 32
     [CHR 0x00, CHR 0x00, CHR 0x00, CHR 0x00, CHR 0x00, CHR 0x00, CHR 0x00, CHR 0x00, CHR 0x00,
      CHR 0x00, CHR 0x00, CHR 0x00, CHR 0x00, CHR 0x00, CHR 0x00, CHR 0x00, CHR 0x00, CHR 0x00,
      CHR 0x00, CHR 0x00, CHR 0x00, CHR 0x00, CHR 0x00, CHR 0x00, CHR 0x00, CHR 0x00, CHR 0x00,
      CHR 0x00, CHR 0x00, CHR 0x00, CHR 0x00, CHR 0x00, CHR 0x01]
   = [CHR 0x00, CHR 0x00, CHR 0x00, CHR 0x00, CHR 0x00, CHR 0x00, CHR 0x00, CHR 0x00, CHR 0x00,
      CHR 0x00, CHR 0x00, CHR 0x00, CHR 0x00, CHR 0x00, CHR 0x00, CHR 0x00, CHR 0x00, CHR 0x00,
      CHR 0x00, CHR 0x00, CHR 0x00, CHR 0x00, CHR 0x00, CHR 0x00, CHR 0x00, CHR 0x00, CHR 0x00,
      CHR 0x00, CHR 0x00, CHR 0x00, CHR 0x00, CHR 0x00]"
  by (simp add: copyArray_def)

section \<open>Claims about \<^verbatim>\<open>encryptSecret\<close>\<close>

text \<open>
  C1. For a recipient key pair whose public key decodes from base64 to 32 bytes and any
  plaintext bytes, whenever key generation yields an ephemeral pair, \<open>encryptSecret\<close>
  returns a text whose standard unsealing with the recipient's private key is the
  plaintext.
\<close>

theorem encryptSecret_roundtrip:
  assumes "lib_contract lib"
    and "key_pair lib recipientPub recipientPriv"
    and "DecodeString publicKey = Inr recipientPub"
    and "length recipientPub = 32"
    and "generateKey lib rnd = Inr (ephemeralPub, ephemeralPriv)"
  shows "\<exists>out. encryptSecret lib rnd publicKey secretValue = Ok out
    \<and> unseal lib recipientPub recipientPriv out = Some secretValue"
  using encryptSecret_sealed [OF assms(1,3,4,5), of secretValue]
    unseal_sealed [OF assms(1,2,5), of secretValue]
  by simp

theorem encryptSecret_roundtrip_witness:
  "\<exists>out. encryptSecret toyLib (Some ''ephemeral-private-key-32-bytes!!'')
        ''cGVjaXBpZW50LXByaXZhdGUta2V5LTMyLWJ5dGVzISE='' [CHR 0x00, CHR 0xFF, CHR ''s''] = Ok out
    \<and> unseal toyLib ''pecipient-private-key-32-bytes!!'' ''recipient-private-key-32-bytes!!'' out
        = Some [CHR 0x00, CHR 0xFF, CHR ''s'']"
proof -
  have len: "length ''pecipient-private-key-32-bytes!!'' = 32"
    by simp
  show ?thesis
    by (rule encryptSecret_roundtrip [OF toy_contract toy_recipient toy_decode len toy_generate])
qed

text \<open>
  C2. For a key that decodes to 32 bytes, a successful output is the standard base64
  encoding of the 32-byte ephemeral public key followed by the box, it decodes to exactly
  \<open>32 + len(plaintext) + 16\<close> bytes, and there is such an output whenever key generation
  succeeds.
\<close>

theorem encryptSecret_layout:
  assumes "lib_contract lib"
    and "DecodeString publicKey = Inr recipientPub"
    and "length recipientPub = 32"
  shows "(\<forall>out. encryptSecret lib rnd publicKey secretValue = Ok out \<longrightarrow>
      (\<exists>ephemeralPub ephemeralPriv encrypted.
         generateKey lib rnd = Inr (ephemeralPub, ephemeralPriv)
         \<and> length ephemeralPub = 32
         \<and> encrypted = boxSeal lib secretValue (blake2b24 lib (ephemeralPub @ recipientPub))
             recipientPub ephemeralPriv
         \<and> out = EncodeToString (ephemeralPub @ encrypted)
         \<and> DecodeString out = Inr (ephemeralPub @ encrypted)
         \<and> length (ephemeralPub @ encrypted) = 32 + length secretValue + 16))
    \<and> ((\<exists>pair. generateKey lib rnd = Inr pair) \<longrightarrow>
         (\<exists>out. encryptSecret lib rnd publicKey secretValue = Ok out))"
proof (intro conjI allI impI)
  fix out
  assume ok: "encryptSecret lib rnd publicKey secretValue = Ok out"
  then obtain pk sk where gen: "generateKey lib rnd = Inr (pk, sk)"
    by (rule encryptSecret_Ok_generated)
  let ?box = "boxSeal lib secretValue (blake2b24 lib (pk @ recipientPub)) recipientPub sk"
  have "out = EncodeToString (pk @ ?box)"
    using encryptSecret_sealed [OF assms gen, of secretValue] ok by simp
  moreover have "length pk = 32"
    using assms(1) gen by (rule lib_contract_keys)
  moreover have "length ?box = length secretValue + 16"
    using assms(1) by (rule lib_contract_overhead)
  ultimately show "\<exists>ephemeralPub ephemeralPriv encrypted.
         generateKey lib rnd = Inr (ephemeralPub, ephemeralPriv)
         \<and> length ephemeralPub = 32
         \<and> encrypted = boxSeal lib secretValue (blake2b24 lib (ephemeralPub @ recipientPub))
             recipientPub ephemeralPriv
         \<and> out = EncodeToString (ephemeralPub @ encrypted)
         \<and> DecodeString out = Inr (ephemeralPub @ encrypted)
         \<and> length (ephemeralPub @ encrypted) = 32 + length secretValue + 16"
    using gen by (simp add: DecodeString_EncodeToString)
next
  assume "\<exists>pair. generateKey lib rnd = Inr pair"
  then obtain pk sk where gen: "generateKey lib rnd = Inr (pk, sk)"
    by (cases "generateKey lib rnd") auto
  show "\<exists>out. encryptSecret lib rnd publicKey secretValue = Ok out"
    using encryptSecret_sealed [OF assms gen, of secretValue] by simp
qed

theorem encryptSecret_layout_witness:
  "\<exists>encrypted.
     ''YHBoZW1lcmFsLXByaXZhdGUta2V5LTMyLWJ5dGVzISFRZqaYvqyrXX66fc+gzVDBZXVsYXYtdGVyY2VzLXJlcHVz''
       = EncodeToString (''`phemeral-private-key-32-bytes!!'' @ encrypted)
     \<and> DecodeString
         ''YHBoZW1lcmFsLXByaXZhdGUta2V5LTMyLWJ5dGVzISFRZqaYvqyrXX66fc+gzVDBZXVsYXYtdGVyY2VzLXJlcHVz''
       = Inr (''`phemeral-private-key-32-bytes!!'' @ encrypted)
     \<and> length (''`phemeral-private-key-32-bytes!!'' @ encrypted) = 32 + 18 + 16"
proof -
  have len: "length ''pecipient-private-key-32-bytes!!'' = 32"
    by simp
  from encryptSecret_layout [OF toy_contract toy_decode len,
      of "Some ''ephemeral-private-key-32-bytes!!''" "''super-secret-value''"]
    toy_eval toy_generate
  show ?thesis by auto
qed

text \<open>
  C3. Whenever \<open>encryptSecret\<close> encrypts, the nonce it hands to the box primitive is the
  24-byte unkeyed BLAKE2b digest \<open>d\<close> of the ephemeral public key followed by the
  recipient key array, in this order.
\<close>

theorem encryptSecret_nonce:
  assumes "DecodeString publicKey = Inr decodedKey"
    and "generateKey lib rnd = Inr (ephemeralPub, ephemeralPriv)"
    and "blake2bNew lib 24 [] = Inr d"
    and "\<forall>m. length (d m) = 24"
  shows "encryptSecret lib rnd publicKey secretValue =
    Ok (EncodeToString (ephemeralPub @
      boxSeal lib secretValue (d (ephemeralPub @ copyArray 32 decodedKey))
        (copyArray 32 decodedKey) ephemeralPriv))"
proof -
  have "copyArray 24 (d (ephemeralPub @ copyArray 32 decodedKey))
    = d (ephemeralPub @ copyArray 32 decodedKey)"
    using assms(4) by (simp add: copyArray_exact)
  with encryptSecret_Ok [OF assms(1-3)] show ?thesis by simp
qed

theorem encryptSecret_nonce_witness:
  "encryptSecret toyLib (Some ''ephemeral-private-key-32-bytes!!'')
     ''cGVjaXBpZW50LXByaXZhdGUta2V5LTMyLWJ5dGVzISE='' ''super-secret-value''
   = Ok (EncodeToString (''`phemeral-private-key-32-bytes!!'' @
       toySeal ''super-secret-value''
         (copyArray 24 (addBytes
            (''`phemeral-private-key-32-bytes!!'' @ ''pecipient-private-key-32-bytes!!'')
            (rev (''`phemeral-private-key-32-bytes!!'' @ ''pecipient-private-key-32-bytes!!''))))
         ''pecipient-private-key-32-bytes!!'' ''ephemeral-private-key-32-bytes!!''))"
proof -
  let ?d = "\<lambda>m. copyArray 24 (addBytes ([] @ m) (rev ([] @ m)))"
  have new: "blake2bNew toyLib 24 [] = Inr ?d"
    by (simp add: toyLib_def toyBlake2bNew_def)
  have len: "\<forall>m. length (?d m) = 24"
    by (simp add: length_copyArray)
  have pad: "copyArray 32 ''pecipient-private-key-32-bytes!!'' = ''pecipient-private-key-32-bytes!!''"
    by (simp add: copyArray_def)
  from encryptSecret_nonce [OF toy_decode toy_generate new len, of "''super-secret-value''"]
  show ?thesis
    unfolding pad by (simp add: toyLib_def)
qed

text \<open>
  C10. The random source enters the result only through the outcome of key generation:
  two runs with the same arguments and the same generated key pair (or the same generation
  error) end in the same output or the same error.
\<close>

theorem encryptSecret_deterministic:
  "generateKey lib rnd1 = generateKey lib rnd2 \<Longrightarrow>
    encryptSecret lib rnd1 publicKey secretValue = encryptSecret lib rnd2 publicKey secretValue"
  by (simp add: encryptSecret_def Let_def split: sum.split)

theorem encryptSecret_deterministic_witness:
  "encryptSecret toyLib (Some ''ephemeral-private-key-32-bytes!!'')
      ''cGVjaXBpZW50LXByaXZhdGUta2V5LTMyLWJ5dGVzISE='' ''super-secret-value''
    = encryptSecret toyLib (Some ''ephemeral-private-key-32-bytes!!, and the bytes not read'')
      ''cGVjaXBpZW50LXByaXZhdGUta2V5LTMyLWJ5dGVzISE='' ''super-secret-value''"
proof -
  have "generateKey toyLib (Some ''ephemeral-private-key-32-bytes!!'')
    = generateKey toyLib (Some ''ephemeral-private-key-32-bytes!!, and the bytes not read'')"
    by (simp add: toyLib_def toyGenerateKey_def copyArray_def)
  then show ?thesis
    by (rule encryptSecret_deterministic)
qed

text \<open>
  C6, as amended. For a key that decodes to 32 bytes, whenever key generation yields a
  pair, the empty plaintext is encrypted: the call returns no error, the output decodes to
  exactly 48 bytes and unseals to the empty string.
\<close>

theorem encryptSecret_empty_plaintext:
  assumes "lib_contract lib"
    and "key_pair lib recipientPub recipientPriv"
    and "DecodeString publicKey = Inr recipientPub"
    and "length recipientPub = 32"
    and "generateKey lib rnd = Inr (ephemeralPub, ephemeralPriv)"
  shows "\<exists>out msg. encryptSecret lib rnd publicKey [] = Ok out
    \<and> DecodeString out = Inr msg \<and> length msg = 48
    \<and> unseal lib recipientPub recipientPriv out = Some []"
proof -
  let ?box = "boxSeal lib [] (blake2b24 lib (ephemeralPub @ recipientPub)) recipientPub ephemeralPriv"
  have "length ephemeralPub = 32"
    using assms(1,5) by (rule lib_contract_keys)
  moreover have "length ?box = length ([] :: bytes) + 16"
    using assms(1) by (rule lib_contract_overhead)
  ultimately have "length (ephemeralPub @ ?box) = 48"
    by simp
  with encryptSecret_sealed [OF assms(1,3,4,5), of "[]"] unseal_sealed [OF assms(1,2,5), of "[]"]
  show ?thesis
    by (simp add: DecodeString_EncodeToString)
qed

theorem encryptSecret_empty_plaintext_witness:
  "\<exists>out msg. encryptSecret toyLib (Some ''ephemeral-private-key-32-bytes!!'')
        ''cGVjaXBpZW50LXByaXZhdGUta2V5LTMyLWJ5dGVzISE='' [] = Ok out
    \<and> DecodeString out = Inr msg \<and> length msg = 48
    \<and> unseal toyLib ''pecipient-private-key-32-bytes!!'' ''recipient-private-key-32-bytes!!'' out
        = Some []"
proof -
  have len: "length ''pecipient-private-key-32-bytes!!'' = 32"
    by simp
  show ?thesis
    by (rule encryptSecret_empty_plaintext [OF toy_contract toy_recipient toy_decode len toy_generate])
qed

text \<open>
  C6 as stated fails: with a key that decodes to 32 bytes and a random source that cannot
  be read, key generation reports an error and \<open>encryptSecret\<close> returns it for the empty
  plaintext.
\<close>

theorem encryptSecret_empty_plaintext_counterexample:
  "DecodeString ''cGVjaXBpZW50LXByaXZhdGUta2V5LTMyLWJ5dGVzISE=''
       = Inr ''pecipient-private-key-32-bytes!!''
   \<and> length ''pecipient-private-key-32-bytes!!'' = 32
   \<and> lib_contract toyLib
   \<and> key_pair toyLib ''pecipient-private-key-32-bytes!!'' ''recipient-private-key-32-bytes!!''
   \<and> generateKey toyLib None = Inl ''unexpected EOF''
   \<and> encryptSecret toyLib None ''cGVjaXBpZW50LXByaXZhdGUta2V5LTMyLWJ5dGVzISE='' []
       = Err (FailedToGenerateKeyPair ''unexpected EOF'')"
proof -
  have gen: "generateKey toyLib None = Inl ''unexpected EOF''"
    by (simp add: toyLib_def toyGenerateKey_def)
  have "encryptSecret toyLib None ''cGVjaXBpZW50LXByaXZhdGUta2V5LTMyLWJ5dGVzISE='' []
       = Err (FailedToGenerateKeyPair ''unexpected EOF'')"
    using toy_decode gen by (rule encryptSecret_generate_error)
  with toy_decode toy_contract toy_recipient gen show ?thesis
    by simp
qed

text \<open>
  C5, as amended. For a fixed 32-byte recipient key and a fixed plaintext, two invocations
  whose generated ephemeral public keys differ return different texts, and each of them
  unseals to the plaintext.
\<close>

theorem encryptSecret_fresh_keys:
  assumes "lib_contract lib"
    and "key_pair lib recipientPub recipientPriv"
    and "DecodeString publicKey = Inr recipientPub"
    and "length recipientPub = 32"
    and "generateKey lib rnd1 = Inr (pub1, priv1)"
    and "generateKey lib rnd2 = Inr (pub2, priv2)"
    and "pub1 \<noteq> pub2"
  shows "\<exists>out1 out2. encryptSecret lib rnd1 publicKey secretValue = Ok out1
    \<and> encryptSecret lib rnd2 publicKey secretValue = Ok out2
    \<and> out1 \<noteq> out2
    \<and> unseal lib recipientPub recipientPriv out1 = Some secretValue
    \<and> unseal lib recipientPub recipientPriv out2 = Some secretValue"
proof -
  let ?box1 = "boxSeal lib secretValue (blake2b24 lib (pub1 @ recipientPub)) recipientPub priv1"
  let ?box2 = "boxSeal lib secretValue (blake2b24 lib (pub2 @ recipientPub)) recipientPub priv2"
  have "length pub1 = 32" and "length pub2 = 32"
    using assms(1,5,6) by (auto dest: lib_contract_keys)
  then have "pub1 @ ?box1 \<noteq> pub2 @ ?box2"
    using assms(7) by simp
  then have "EncodeToString (pub1 @ ?box1) \<noteq> EncodeToString (pub2 @ ?box2)"
    by (blast dest: EncodeToString_inject)
  with encryptSecret_sealed [OF assms(1,3,4,5), of secretValue]
    encryptSecret_sealed [OF assms(1,3,4,6), of secretValue]
    unseal_sealed [OF assms(1,2,5), of secretValue]
    unseal_sealed [OF assms(1,2,6), of secretValue]
  show ?thesis by simp
qed

theorem encryptSecret_fresh_keys_witness:
  "\<exists>out1 out2.
     encryptSecret toyLib (Some ''ephemeral-private-key-32-bytes!!'')
       ''cGVjaXBpZW50LXByaXZhdGUta2V5LTMyLWJ5dGVzISE='' ''super-secret-value'' = Ok out1
   \<and> encryptSecret toyLib (Some ''another-ephemeral-key-32-bytes!!'')
       ''cGVjaXBpZW50LXByaXZhdGUta2V5LTMyLWJ5dGVzISE='' ''super-secret-value'' = Ok out2
   \<and> out1 \<noteq> out2
   \<and> unseal toyLib ''pecipient-private-key-32-bytes!!'' ''recipient-private-key-32-bytes!!'' out1
       = Some ''super-secret-value''
   \<and> unseal toyLib ''pecipient-private-key-32-bytes!!'' ''recipient-private-key-32-bytes!!'' out2
       = Some ''super-secret-value''"
proof -
  have len: "length ''pecipient-private-key-32-bytes!!'' = 32"
    by simp
  have ne: "''`phemeral-private-key-32-bytes!!'' \<noteq> ''`nother-ephemeral-key-32-bytes!!''"
    by simp
  show ?thesis
    by (rule encryptSecret_fresh_keys
        [OF toy_contract toy_recipient toy_decode len toy_generate toy_generate_other ne])
qed

text \<open>
  C5 as stated fails: two draws that differ in the low bits of the first byte give two
  distinct key pairs with one public key, and the two invocations return the same text.
\<close>

theorem encryptSecret_distinct_pairs_counterexample:
  "lib_contract toyLib
   \<and> key_pair toyLib ''pecipient-private-key-32-bytes!!'' ''recipient-private-key-32-bytes!!''
   \<and> generateKey toyLib (Some ''ephemeral-private-key-32-bytes!!'')
       = Inr (''`phemeral-private-key-32-bytes!!'', ''ephemeral-private-key-32-bytes!!'')
   \<and> generateKey toyLib (Some ''dphemeral-private-key-32-bytes!!'')
       = Inr (''`phemeral-private-key-32-bytes!!'', ''dphemeral-private-key-32-bytes!!'')
   \<and> (''`phemeral-private-key-32-bytes!!'', ''ephemeral-private-key-32-bytes!!'')
       \<noteq> (''`phemeral-private-key-32-bytes!!'', ''dphemeral-private-key-32-bytes!!'')
   \<and> encryptSecret toyLib (Some ''ephemeral-private-key-32-bytes!!'')
         ''cGVjaXBpZW50LXByaXZhdGUta2V5LTMyLWJ5dGVzISE='' ''super-secret-value''
       = encryptSecret toyLib (Some ''dphemeral-private-key-32-bytes!!'')
         ''cGVjaXBpZW50LXByaXZhdGUta2V5LTMyLWJ5dGVzISE='' ''super-secret-value''"
  using toy_contract toy_recipient toy_generate toy_generate_twin toy_eval toy_eval_twin
  by simp

text \<open>
  C7. Every error that a primitive produces is returned to the caller as an explicit error
  that wraps it: the error of base64 key decoding, and the error of key-pair generation,
  after which no other random source is tried. \<open>encryptSecret\<close> returns no other error.
  Under the library's contract the hash constructor \<^verbatim>\<open>blake2b.New(24, nil)\<close> reports no
  error, so none is dropped; the box primitive has no error result; the call never panics;
  and an output is returned only when no primitive reported an error.
\<close>

theorem encryptSecret_errors:
  "(\<forall>err. DecodeString publicKey = Inl err \<longrightarrow>
      encryptSecret lib rnd publicKey secretValue = Err (FailedToDecodePublicKey err))
   \<and> (\<forall>key err. DecodeString publicKey = Inr key \<and> generateKey lib rnd = Inl err \<longrightarrow>
      encryptSecret lib rnd publicKey secretValue = Err (FailedToGenerateKeyPair err))
   \<and> (\<forall>e. encryptSecret lib rnd publicKey secretValue = Err e \<longrightarrow>
      (\<exists>err. DecodeString publicKey = Inl err \<and> e = FailedToDecodePublicKey err)
      \<or> (\<exists>err. generateKey lib rnd = Inl err \<and> e = FailedToGenerateKeyPair err))
   \<and> (lib_contract lib \<longrightarrow>
      (\<forall>err. blake2bNew lib 24 [] \<noteq> Inl err)
      \<and> encryptSecret lib rnd publicKey secretValue \<noteq> Panic
      \<and> (\<forall>out. encryptSecret lib rnd publicKey secretValue = Ok out \<longrightarrow>
           (\<exists>key pair d. DecodeString publicKey = Inr key \<and> generateKey lib rnd = Inr pair
              \<and> blake2bNew lib 24 [] = Inr d)))"
proof (intro conjI allI impI)
  fix err
  assume "DecodeString publicKey = Inl err"
  then show "encryptSecret lib rnd publicKey secretValue = Err (FailedToDecodePublicKey err)"
    by (rule encryptSecret_decode_error)
next
  fix key err
  assume "DecodeString publicKey = Inr key \<and> generateKey lib rnd = Inl err"
  then show "encryptSecret lib rnd publicKey secretValue = Err (FailedToGenerateKeyPair err)"
    by (blast intro: encryptSecret_generate_error)
next
  fix e
  assume "encryptSecret lib rnd publicKey secretValue = Err e"
  then show "(\<exists>err. DecodeString publicKey = Inl err \<and> e = FailedToDecodePublicKey err)
      \<or> (\<exists>err. generateKey lib rnd = Inl err \<and> e = FailedToGenerateKeyPair err)"
    by (auto simp: encryptSecret_def Let_def split: sum.splits)
next
  fix err
  assume "lib_contract lib"
  then show "blake2bNew lib 24 [] \<noteq> Inl err"
    unfolding lib_contract_def by auto
next
  assume "lib_contract lib"
  then show "encryptSecret lib rnd publicKey secretValue \<noteq> Panic"
    by (rule encryptSecret_no_panic)
next
  fix out
  assume "lib_contract lib" and "encryptSecret lib rnd publicKey secretValue = Ok out"
  then show "\<exists>key pair d. DecodeString publicKey = Inr key \<and> generateKey lib rnd = Inr pair
      \<and> blake2bNew lib 24 [] = Inr d"
    by (auto simp: encryptSecret_def Let_def split: sum.splits)
qed

theorem encryptSecret_errors_witness:
  "encryptSecret toyLib (Some ''ephemeral-private-key-32-bytes!!'') ''not base64!''
      ''super-secret-value'' = Err (FailedToDecodePublicKey CorruptInputError)
   \<and> encryptSecret toyLib None ''cGVjaXBpZW50LXByaXZhdGUta2V5LTMyLWJ5dGVzISE=''
      ''super-secret-value'' = Err (FailedToGenerateKeyPair ''unexpected EOF'')
   \<and> encryptSecret toyLib (Some ''ephemeral-private-key-32-bytes!!'')
      ''cGVjaXBpZW50LXByaXZhdGUta2V5LTMyLWJ5dGVzISE='' ''super-secret-value'' \<noteq> Panic"
proof -
  have gen: "generateKey toyLib None = Inl ''unexpected EOF''"
    by (simp add: toyLib_def toyGenerateKey_def)
  from encryptSecret_errors [of "''not base64!''" toyLib "Some ''ephemeral-private-key-32-bytes!!''"
      "''super-secret-value''"] toy_decode_corrupt
  have "encryptSecret toyLib (Some ''ephemeral-private-key-32-bytes!!'') ''not base64!''
      ''super-secret-value'' = Err (FailedToDecodePublicKey CorruptInputError)"
    by blast
  moreover
  from encryptSecret_errors [of "''cGVjaXBpZW50LXByaXZhdGUta2V5LTMyLWJ5dGVzISE=''" toyLib None
      "''super-secret-value''"] toy_decode gen
  have "encryptSecret toyLib None ''cGVjaXBpZW50LXByaXZhdGUta2V5LTMyLWJ5dGVzISE=''
      ''super-secret-value'' = Err (FailedToGenerateKeyPair ''unexpected EOF'')"
    by blast
  moreover
  from encryptSecret_errors [of "''cGVjaXBpZW50LXByaXZhdGUta2V5LTMyLWJ5dGVzISE=''" toyLib
      "Some ''ephemeral-private-key-32-bytes!!''" "''super-secret-value''"] toy_contract
  have "encryptSecret toyLib (Some ''ephemeral-private-key-32-bytes!!'')
      ''cGVjaXBpZW50LXByaXZhdGUta2V5LTMyLWJ5dGVzISE='' ''super-secret-value'' \<noteq> Panic"
    by blast
  ultimately show ?thesis
    by (intro conjI)
qed

text \<open>
  C4. The keys \<^verbatim>\<open>AAAA\<close> (three zero bytes) and \<^verbatim>\<open>AAAAAAAAAAAAAAAAAAAAAAAAAAAAAAAAAAAAAAAAAAAB\<close>
  (33 bytes) are well-formed base64 of the wrong length. \<open>encryptSecret\<close> rejects neither:
  it pads the first with zeros and cuts the second to 32 bytes, encrypts, and returns what
  it returns for the key of 32 zero bytes.
\<close>

theorem encryptSecret_short_key:
  "DecodeString ''AAAA'' = Inr [CHR 0x00, CHR 0x00, CHR 0x00]
   \<and> encryptSecret toyLib (Some ''ephemeral-private-key-32-bytes!!'') ''AAAA'' ''x''
       = Ok ''YHBoZW1lcmFsLXByaXZhdGUta2V5LTMyLWJ5dGVzISHA4NDK2srkwtha4OTS7MLoeA==''
   \<and> encryptSecret toyLib (Some ''ephemeral-private-key-32-bytes!!'')
         ''AAAAAAAAAAAAAAAAAAAAAAAAAAAAAAAAAAAAAAAAAAA='' ''x''
       = Ok ''YHBoZW1lcmFsLXByaXZhdGUta2V5LTMyLWJ5dGVzISHA4NDK2srkwtha4OTS7MLoeA==''
   \<and> encryptSecret toyLib (Some ''ephemeral-private-key-32-bytes!!'')
         ''AAAAAAAAAAAAAAAAAAAAAAAAAAAAAAAAAAAAAAAAAAAB'' ''x''
       = Ok ''YHBoZW1lcmFsLXByaXZhdGUta2V5LTMyLWJ5dGVzISHA4NDK2srkwtha4OTS7MLoeA==''"
proof -
  let ?d = "\<lambda>m. copyArray 24 (addBytes ([] @ m) (rev ([] @ m)))"
  have new: "blake2bNew toyLib 24 [] = Inr ?d"
    by (simp add: toyLib_def toyBlake2bNew_def)
  have short: "encryptSecret toyLib (Some ''ephemeral-private-key-32-bytes!!'') ''AAAA'' ''x''
       = Ok ''YHBoZW1lcmFsLXByaXZhdGUta2V5LTMyLWJ5dGVzISHA4NDK2srkwtha4OTS7MLoeA==''"
    unfolding encryptSecret_Ok [OF decode_AAAA toy_generate new] pad_AAAA
    by (simp add: toy_defs sextets_def encodeStd_def)
  have "encryptSecret toyLib (Some ''ephemeral-private-key-32-bytes!!'') ''AAAA'' ''x''
       = encryptSecret toyLib (Some ''ephemeral-private-key-32-bytes!!'')
           ''AAAAAAAAAAAAAAAAAAAAAAAAAAAAAAAAAAAAAAAAAAA='' ''x''"
    unfolding encryptSecret_key_as_copied [OF decode_AAAA] pad_AAAA encode_zero_key ..
  moreover have "encryptSecret toyLib (Some ''ephemeral-private-key-32-bytes!!'')
           ''AAAAAAAAAAAAAAAAAAAAAAAAAAAAAAAAAAAAAAAAAAAB'' ''x''
       = encryptSecret toyLib (Some ''ephemeral-private-key-32-bytes!!'')
           ''AAAAAAAAAAAAAAAAAAAAAAAAAAAAAAAAAAAAAAAAAAA='' ''x''"
    unfolding encryptSecret_key_as_copied [OF decode_long_key] cut_long_key encode_zero_key ..
  ultimately show ?thesis
    using decode_AAAA short by simp
qed

section \<open>\<^verbatim>\<open>isValidEnvironmentName\<close>: runes and bytes\<close>

lemma decodeRune_ascii: "of_char b0 < (0x80 :: nat) \<Longrightarrow> decodeRune (b0 # rest) = (of_char b0, 1)"
  by (simp add: Let_def)

lemma mod_window:
  fixes x :: nat
  assumes "a * n \<le> x" and "x < a * n + n"
  shows "x mod n = x - a * n"
proof -
  have "x - a * n < n"
    using assms by linarith
  then have "(x - a * n + a * n) mod n = x - a * n"
    by (rule mod_lo)
  then show ?thesis
    using assms(1) by simp
qed

lemma rune2: "(194::nat) \<le> x \<Longrightarrow> x \<le> 223 \<Longrightarrow> 128 \<le> x mod 32 * 64 + y"
  using mod_window [of 6 32 x] by simp

lemma rune3:
  assumes "(224::nat) \<le> x" and "x \<le> 239"
    and "inRange b1 (if x = 224 then 160 else 128) hi" and "hi \<le> 191"
  shows "128 \<le> x mod 16 * 4096 + low6 b1 * 64 + z"
proof (cases "x = 224")
  case True
  with assms(3,4) have "160 \<le> (of_char b1 :: nat)" and "(of_char b1 :: nat) \<le> 191"
    by (simp_all add: inRange_def)
  then have "32 \<le> low6 b1"
    unfolding low6_def using mod_window [of 2 64 "of_char b1"] by simp
  then show ?thesis by simp
next
  case False
  with assms(1,2) have "1 \<le> x mod 16"
    using mod_window [of 14 16 x] by simp
  then have "4096 \<le> x mod 16 * 4096"
    by simp
  then show ?thesis by linarith
qed

lemma rune4:
  assumes "(240::nat) \<le> x" and "x \<le> 244"
    and "inRange b1 (if x = 240 then 144 else 128) hi" and "hi \<le> 191"
  shows "128 \<le> x mod 8 * 262144 + low6 b1 * 4096 + z"
proof (cases "x = 240")
  case True
  with assms(3,4) have "144 \<le> (of_char b1 :: nat)" and "(of_char b1 :: nat) \<le> 191"
    by (simp_all add: inRange_def)
  then have "16 \<le> low6 b1"
    unfolding low6_def using mod_window [of 2 64 "of_char b1"] by simp
  then have "65536 \<le> low6 b1 * 4096"
    by simp
  then show ?thesis by linarith
next
  case False
  with assms(1,2) have "1 \<le> x mod 8"
    using mod_window [of 30 8 x] by simp
  then have "262144 \<le> x mod 8 * 262144"
    by simp
  then show ?thesis by linarith
qed

lemma decode2_high: "194 \<le> x \<Longrightarrow> x \<le> 223 \<Longrightarrow> 128 \<le> fst (decode2 x rest)"
  by (simp add: decode2_def rune2 split: list.splits)

lemma decode3_high:
  assumes "224 \<le> x" and "x \<le> 239"
  shows "128 \<le> fst (decode3 x rest)"
proof -
  define lo :: nat where "lo = (if x = 0xE0 then 0xA0 else 0x80)"
  define hi :: nat where "hi = (if x = 0xED then 0x9F else 0xBF)"
  have hi: "hi \<le> 191"
    by (simp add: hi_def)
  have val: "128 \<le> x mod 16 * 4096 + low6 b1 * 64 + z" if "inRange b1 lo hi" for b1 z
    using assms that hi unfolding lo_def by (intro rune3) simp_all
  have "decode3 x rest =
    (case rest of
       b1 # b2 # _ \<Rightarrow>
         if inRange b1 lo hi \<and> inRange b2 0x80 0xBF
         then (x mod 16 * 4096 + low6 b1 * 64 + low6 b2, 3) else (0xFFFD, 1)
     | _ \<Rightarrow> (0xFFFD, 1))"
    by (simp only: decode3_def lo_def hi_def)
  then show ?thesis
    by (simp add: val split: list.splits)
qed

lemma decode4_high:
  assumes "240 \<le> x" and "x \<le> 244"
  shows "128 \<le> fst (decode4 x rest)"
proof -
  define lo :: nat where "lo = (if x = 0xF0 then 0x90 else 0x80)"
  define hi :: nat where "hi = (if x = 0xF4 then 0x8F else 0xBF)"
  have hi: "hi \<le> 191"
    by (simp add: hi_def)
  have val: "128 \<le> x mod 8 * 262144 + low6 b1 * 4096 + z" if "inRange b1 lo hi" for b1 z
    using assms that hi unfolding lo_def by (intro rune4) simp_all
  have "decode4 x rest =
    (case rest of
       b1 # b2 # b3 # _ \<Rightarrow>
         if inRange b1 lo hi \<and> inRange b2 0x80 0xBF \<and> inRange b3 0x80 0xBF
         then (x mod 8 * 262144 + low6 b1 * 4096 + low6 b2 * 64 + low6 b3, 4) else (0xFFFD, 1)
     | _ \<Rightarrow> (0xFFFD, 1))"
    by (simp only: decode4_def lo_def hi_def)
  then show ?thesis
    using val [where z = "low6 b2 * 64 + low6 b3" for b2 b3]
    by (simp add: add.assoc split: list.splits)
qed

lemma decodeRune_multibyte:
  assumes "\<not> of_char b0 < (0x80 :: nat)"
  shows "128 \<le> fst (decodeRune (b0 # rest))"
  using assms
  by (simp add: Let_def decode2_high decode3_high decode4_high)


lemma lowercase_letters: "map char_of [97..<123 :: nat] = ''abcdefghijklmnopqrstuvwxyz''"
  by (simp add: char_of_eq_iff)

lemma digits: "map char_of [48..<58 :: nat] = ''0123456789''"
  by (simp add: char_of_eq_iff)

lemma in_char_range:
  "c \<in> set (map char_of [lo..<hi :: nat]) \<longleftrightarrow> lo \<le> of_char c \<and> of_char c < hi" if "hi \<le> 256"
proof
  assume "c \<in> set (map char_of [lo..<hi])"
  then obtain n where n: "lo \<le> n" "n < hi" "c = char_of n"
    by auto
  with that have "(of_char c :: nat) = n"
    by simp
  with n show "lo \<le> of_char c \<and> of_char c < hi"
    by simp
next
  assume "lo \<le> of_char c \<and> of_char c < hi"
  then have "(of_char c :: nat) \<in> set [lo..<hi]"
    by simp
  then have "char_of (of_char c :: nat) \<in> set (map char_of [lo..<hi])"
    unfolding set_map by (rule imageI)
  then show "c \<in> set (map char_of [lo..<hi])"
    by simp
qed

lemma nameChar_iff:
  "nameChar c \<longleftrightarrow>
    ((97 :: nat) \<le> of_char c \<and> of_char c \<le> (122 :: nat))
    \<or> ((48 :: nat) \<le> of_char c \<and> of_char c \<le> (57 :: nat))
    \<or> of_char c = (45 :: nat)"
proof -
  have "c = CHR ''-'' \<longleftrightarrow> of_char c = (45 :: nat)"
    using of_char_eq_iff [of c "CHR ''-''", where ?'a = nat] by simp
  moreover have "c \<in> set ''abcdefghijklmnopqrstuvwxyz'' \<longleftrightarrow> (97 :: nat) \<le> of_char c \<and> of_char c < (123 :: nat)"
    unfolding lowercase_letters [symmetric] by (rule in_char_range) simp
  moreover have "c \<in> set ''0123456789'' \<longleftrightarrow> (48 :: nat) \<le> of_char c \<and> of_char c < (58 :: nat)"
    unfolding digits [symmetric] by (rule in_char_range) simp
  ultimately show ?thesis
    unfolding nameChar_def by (simp only:) linarith
qed

lemma onlyValidRunes_Cons:
  "onlyValidRunes (ch # rest) \<longleftrightarrow>
    ((97 \<le> ch \<and> ch \<le> 122) \<or> (48 \<le> ch \<and> ch \<le> 57) \<or> ch = 45) \<and> onlyValidRunes rest"
  by simp

text \<open>The runes of a name pass the loop exactly when every byte is one of the 37 characters.\<close>

lemma onlyValidRunes_rangeRunes: "onlyValidRunes (rangeRunes name) \<longleftrightarrow> (\<forall>c\<in>set name. nameChar c)"
proof (induction name rule: rangeRunes.induct)
  case 1
  show ?case by simp
next
  case (2 b0 rest)
  show ?case
  proof (cases "of_char b0 < (0x80 :: nat)")
    case True
    then have "rangeRunes (b0 # rest) = of_char b0 # rangeRunes rest"
      by (simp add: decodeRune_ascii del: decodeRune.simps)
    moreover have "onlyValidRunes (rangeRunes rest) \<longleftrightarrow> (\<forall>c\<in>set rest. nameChar c)"
      using "2.IH" True by (simp add: decodeRune_ascii del: decodeRune.simps)
    ultimately show ?thesis
      by (simp only: onlyValidRunes_Cons nameChar_iff [of b0] list.set ball_simps)
  next
    case False
    then have "128 \<le> fst (decodeRune (b0 # rest))"
      by (rule decodeRune_multibyte)
    then have "\<not> onlyValidRunes (rangeRunes (b0 # rest))"
      by (simp del: decodeRune.simps)
    moreover have "\<not> nameChar b0"
      using False by (simp add: nameChar_iff)
    ultimately show ?thesis
      by simp
  qed
qed

text \<open>
  C8. \<open>isValidEnvironmentName\<close> is true exactly for the names of 1 to 255 bytes made of
  lowercase ASCII letters, ASCII digits and hyphens that neither start nor end with a
  hyphen.
\<close>

theorem isValidEnvironmentName_iff:
  "isValidEnvironmentName name \<longleftrightarrow>
    1 \<le> length name \<and> length name \<le> 255 \<and> (\<forall>c\<in>set name. nameChar c)
    \<and> take 1 name \<noteq> ''-'' \<and> drop (length name - 1) name \<noteq> ''-''"
proof (cases name rule: rev_cases)
  case Nil
  then show ?thesis
    by (simp add: isValidEnvironmentName_def)
next
  case (snoc front final)
  then have "name ! (length name - 1) = final" and "drop (length name - 1) name = [final]"
    by simp_all
  moreover have "take 1 name = [name ! 0]"
    using snoc by (cases front) simp_all
  ultimately show ?thesis
    using snoc by (auto simp: isValidEnvironmentName_def onlyValidRunes_rangeRunes)
qed

theorem isValidEnvironmentName_iff_witness:
  "isValidEnvironmentName ''prod-1'' \<and> \<not> isValidEnvironmentName ''-prod''
   \<and> \<not> isValidEnvironmentName ''Prod'' \<and> \<not> isValidEnvironmentName [CHR 0xC3, CHR 0xA9]"
  using isValidEnvironmentName_iff [of "''prod-1''"] isValidEnvironmentName_iff [of "''-prod''"]
    isValidEnvironmentName_iff [of "''Prod''"] isValidEnvironmentName_iff [of "[CHR 0xC3, CHR 0xA9]"]
  by (simp add: nameChar_def)

section \<open>Pagination\<close>

lemma pageLoop_slice:
  assumes "0 \<le> sint i" and "sint i \<le> sint e" and "sint e \<le> int (length xs)"
  shows "pageLoop xs i e acc
    = Some (acc @ take (nat (sint e) - nat (sint i)) (drop (nat (sint i)) xs))"
  using assms
proof (induction xs i e acc rule: pageLoop.induct)
  case (1 allRepos i e repos)
  show ?case
  proof (cases "sint i < sint e")
    case True
    have next_i: "sint (i + 1) = sint i + 1"
      using True by (rule sint_Suc_below)
    have idx: "0 \<le> sint i \<and> sint i < int (length allRepos)"
      using "1.prems" True by linarith
    define n where "n = nat (sint i)"
    define m where "m = nat (sint e)"
    have nm: "n < m" "n < length allRepos" "nat (sint (i + 1)) = Suc n"
      using True idx "1.prems" unfolding n_def m_def next_i by linarith+
    have "pageLoop allRepos i e repos
      = pageLoop allRepos (i + 1) e (repos @ [allRepos ! nat (sint i)])"
      using True idx by (subst pageLoop.simps) simp
    also have "\<dots> = Some ((repos @ [allRepos ! nat (sint i)])
        @ take (nat (sint e) - nat (sint (i + 1))) (drop (nat (sint (i + 1))) allRepos))"
      using True idx "1.prems" next_i by (intro "1.IH") simp_all
    also have "\<dots> = Some (repos @ allRepos ! n # take (m - Suc n) (drop (Suc n) allRepos))"
      by (simp add: nm n_def [symmetric] m_def [symmetric])
    also have "allRepos ! n # take (m - Suc n) (drop (Suc n) allRepos)
        = take (m - n) (drop n allRepos)"
    proof -
      have "m - n = Suc (m - Suc n)"
        using nm(1) by simp
      then show ?thesis
        using Cons_nth_drop_Suc [OF nm(2)] by (metis take_Suc_Cons)
    qed
    finally show ?thesis
      by (simp add: n_def m_def)
  next
    case False
    with "1.prems" have "sint i = sint e"
      by simp
    with False show ?thesis
      by (subst pageLoop.simps) simp
  qed
qed


lemma sint_in_range:
  fixes w :: go_int
  assumes "sint w = signed_take_bit 63 k" and "- (2 ^ 63) \<le> k" and "k < 2 ^ 63"
  shows "sint w = k"
  using assms by (simp add: signed_take_bit_int_eq_self)

text \<open>
  Where neither the product nor the sum leaves the 64-bit range, the page is the slice of
  at most \<open>perPage\<close> elements that starts at \<open>(page - 1) * perPage\<close>.
\<close>

lemma paginate_in_range:
  assumes page: "1 \<le> sint page" and perPage: "1 \<le> sint perPage"
    and fit: "(sint page - 1) * sint perPage + sint perPage < 2 ^ 63"
    and len: "int (length allRepos) < 2 ^ 63"
  shows "paginate allRepos page perPage
    = Some (take (nat (sint perPage)) (drop (nat ((sint page - 1) * sint perPage)) allRepos))"
proof -
  define S where "S = (sint page - 1) * sint perPage"
  define P where "P = sint perPage"
  define L where "L = int (length allRepos)"
  define start0 where "start0 = (page - 1) * perPage"
  define end0 where "end0 = start0 + perPage"
  define lw :: go_int where "lw = of_nat (length allRepos)"
  have S0: "0 \<le> S"
    unfolding S_def using page perPage by simp
  have SP: "S + P < 2 ^ 63" and P1: "1 \<le> P" and L0: "0 \<le> L" and L63: "L < 2 ^ 63"
    using fit perPage len by (simp_all add: S_def P_def L_def)
  have "sint (page - 1) = signed_take_bit 63 (sint page - 1)"
    by (simp add: sint_word_ariths)
  then have h1: "sint (page - 1) = sint page - 1"
    by (rule sint_in_range) (use page sint_lt [of page] in simp_all)
  have "sint start0 = signed_take_bit 63 S"
    by (simp add: start0_def S_def sint_word_mult h1)
  then have h2: "sint start0 = S"
    by (rule sint_in_range) (use S0 SP P1 in simp_all)
  have "sint end0 = signed_take_bit 63 (S + P)"
    by (simp add: end0_def P_def sint_word_ariths(1) h2)
  then have h3: "sint end0 = S + P"
    by (rule sint_in_range) (use S0 SP P1 in simp_all)
  have "sint lw = signed_take_bit 63 L"
    by (simp add: lw_def L_def signed_of_nat)
  then have h4: "sint lw = L"
    by (rule sint_in_range) (use L0 L63 in simp_all)
  define start1 where "start1 = (if L \<le> sint start0 then lw else start0)"
  define end1 where "end1 = (if L < sint end0 then lw else end0)"
  have s1: "sint start1 = min L S" and e1: "sint end1 = min L (S + P)"
    by (simp_all add: start1_def end1_def h2 h3 h4 min_def)
  have "paginate allRepos page perPage = pageLoop allRepos start1 end1 []"
    by (simp add: paginate_def Let_def start1_def end1_def start0_def end0_def lw_def L_def)
  also have "\<dots> = Some ([] @ take (nat (sint end1) - nat (sint start1))
      (drop (nat (sint start1)) allRepos))"
    by (rule pageLoop_slice) (use S0 P1 L0 in \<open>simp_all add: s1 e1 L_def\<close>)
  also have "take (nat (sint end1) - nat (sint start1)) (drop (nat (sint start1)) allRepos)
    = take (nat P) (drop (nat S) allRepos)"
  proof (cases "L \<le> S")
    case True
    then have "length allRepos \<le> nat S"
      by (simp add: L_def)
    moreover from True have "nat (min L S) = length allRepos"
      by (simp add: L_def min_def)
    ultimately show ?thesis
      by (simp add: s1)
  next
    case False
    show ?thesis
    proof (cases "L < S + P")
      case True
      with False S0 have "length (drop (nat S) allRepos) \<le> nat P"
        and "nat (min L (S + P)) - nat (min L S) = length (drop (nat S) allRepos)"
        and "nat (min L S) = nat S"
        by (simp_all add: L_def min_def)
      then show ?thesis
        by (simp add: s1 e1)
    next
      case False
      with \<open>\<not> L \<le> S\<close> S0 P1 have "nat (min L (S + P)) - nat (min L S) = nat P"
        and "nat (min L S) = nat S"
        by (simp_all add: min_def nat_diff_distrib)
      then show ?thesis
        by (simp add: s1 e1)
    qed
  qed
  finally show ?thesis
    by (simp add: S_def P_def)
qed

text \<open>
  C9. With \<open>page = 2^62\<close> and \<open>perPage = 4\<close> the product \<open>(page - 1) * perPage\<close> wraps
  around to \<open>-4\<close>: no clamp applies, the loop reads index \<open>-4\<close> and the run panics. With
  \<open>page = 2^62 + 1\<close> the product wraps to \<open>0\<close> and the first page comes back.
\<close>

theorem paginate_overflow:
  "paginate [''web'', ''api'', ''docs'', ''infra'', ''tools''] 4611686018427387904 4 = None
   \<and> paginate [''web'', ''api'', ''docs'', ''infra'', ''tools''] 4611686018427387905 4
       = Some [''web'', ''api'', ''docs'', ''infra'']"
  by (simp add: paginate_def Let_def)


end
